theory Spec2Isabelle
  imports Complex_Main "HOL-Library.Log_Nat"

begin

section \<open>JavaScript numbers\<close>

text \<open>
  The widget computes with JavaScript numbers. A number is modelled as an exact rational
  or one of the three special values that the divisions of the source can produce:
  \<open>Infinity\<close>, \<open>-Infinity\<close> and \<open>NaN\<close>. The sum that the \<open>step\<close> of \<open>_swipe\<close> forms at every
  frame is rounded to a double as the machine rounds it (\<open>js_round\<close>), because a step that
  the rounding absorbs leaves the offset where it was; the other finite results are exact.
  Every zero denominator of the source is a positive zero or is passed through
  \<open>Math.abs\<close> afterwards (\<open>Math.abs(diffY)\<close>, the difference of two integer time stamps,
  \<open>animationTime * 0.06\<close> under \<open>Math.abs\<close>, \<open>Math.abs(this._translateX)\<close>), so that one
  zero is enough.
\<close>

datatype jsnum = Num rat | PInf | NInf | NaN

fun js_neg :: "jsnum \<Rightarrow> jsnum" where
  "js_neg (Num a) = Num (- a)"
| "js_neg PInf = NInf"
| "js_neg NInf = PInf"
| "js_neg NaN = NaN"

text \<open>\<open>Math.abs\<close>.\<close>

fun js_abs :: "jsnum \<Rightarrow> jsnum" where
  "js_abs (Num a) = Num \<bar>a\<bar>"
| "js_abs PInf = PInf"
| "js_abs NInf = PInf"
| "js_abs NaN = NaN"

text \<open>The relational operators: every comparison with \<open>NaN\<close> is false.\<close>

fun js_lt :: "jsnum \<Rightarrow> jsnum \<Rightarrow> bool" where
  "js_lt NaN _ = False"
| "js_lt _ NaN = False"
| "js_lt (Num a) (Num b) = (a < b)"
| "js_lt (Num a) PInf = True"
| "js_lt (Num a) NInf = False"
| "js_lt PInf _ = False"
| "js_lt NInf NInf = False"
| "js_lt NInf _ = True"

definition js_gt :: "jsnum \<Rightarrow> jsnum \<Rightarrow> bool" where
  "js_gt a b = js_lt b a"

definition js_le :: "jsnum \<Rightarrow> jsnum \<Rightarrow> bool" where
  "js_le a b = (a \<noteq> NaN \<and> b \<noteq> NaN \<and> \<not> js_lt b a)"

definition js_ge :: "jsnum \<Rightarrow> jsnum \<Rightarrow> bool" where
  "js_ge a b = js_le b a"

fun js_add :: "jsnum \<Rightarrow> jsnum \<Rightarrow> jsnum" where
  "js_add NaN _ = NaN"
| "js_add _ NaN = NaN"
| "js_add (Num a) (Num b) = Num (a + b)"
| "js_add (Num a) PInf = PInf"
| "js_add (Num a) NInf = NInf"
| "js_add PInf NInf = NaN"
| "js_add PInf _ = PInf"
| "js_add NInf PInf = NaN"
| "js_add NInf _ = NInf"

definition js_sub :: "jsnum \<Rightarrow> jsnum \<Rightarrow> jsnum" where
  "js_sub a b = js_add a (js_neg b)"

fun js_mul :: "jsnum \<Rightarrow> jsnum \<Rightarrow> jsnum" where
  "js_mul NaN _ = NaN"
| "js_mul _ NaN = NaN"
| "js_mul (Num a) (Num b) = Num (a * b)"
| "js_mul (Num a) PInf = (if a = 0 then NaN else if 0 < a then PInf else NInf)"
| "js_mul (Num a) NInf = (if a = 0 then NaN else if 0 < a then NInf else PInf)"
| "js_mul PInf (Num b) = (if b = 0 then NaN else if 0 < b then PInf else NInf)"
| "js_mul NInf (Num b) = (if b = 0 then NaN else if 0 < b then NInf else PInf)"
| "js_mul PInf PInf = PInf"
| "js_mul PInf NInf = NInf"
| "js_mul NInf PInf = NInf"
| "js_mul NInf NInf = PInf"

text \<open>Division never raises: a zero denominator gives an infinity, or \<open>NaN\<close> for \<open>0 / 0\<close>.\<close>

fun js_div :: "jsnum \<Rightarrow> jsnum \<Rightarrow> jsnum" where
  "js_div NaN _ = NaN"
| "js_div _ NaN = NaN"
| "js_div (Num a) (Num b) =
     (if b = 0 then (if a = 0 then NaN else if 0 < a then PInf else NInf) else Num (a / b))"
| "js_div (Num a) PInf = Num 0"
| "js_div (Num a) NInf = Num 0"
| "js_div PInf (Num b) = (if b < 0 then NInf else PInf)"
| "js_div NInf (Num b) = (if b < 0 then PInf else NInf)"
| "js_div PInf _ = NaN"
| "js_div NInf _ = NaN"

text \<open>\<open>Math.max\<close> and \<open>Math.min\<close>: \<open>NaN\<close> as soon as one argument is \<open>NaN\<close>.\<close>

definition js_max :: "jsnum \<Rightarrow> jsnum \<Rightarrow> jsnum" where
  "js_max a b = (if a = NaN \<or> b = NaN then NaN else if js_lt a b then b else a)"

definition js_min :: "jsnum \<Rightarrow> jsnum \<Rightarrow> jsnum" where
  "js_min a b = (if a = NaN \<or> b = NaN then NaN else if js_lt b a then b else a)"

text \<open>
  Rounding to a double (IEEE 754 binary64, to nearest, ties to even): a significand of 53
  bits, spacing \<open>2 powi (- 1074)\<close> below the normal range, \<open>Infinity\<close> from \<open>2 powi 1024\<close> on.
  \<open>floor_log2 a\<close> is the exponent \<open>e\<close> with \<open>2 powi e \<le> a < 2 powi (e + 1)\<close> of a positive \<open>a\<close>.
\<close>

definition floor_log2 :: "rat \<Rightarrow> int" where
  "floor_log2 a =
     (let (p, q) = quotient_of a; d = bitlen p - bitlen q
      in if a < 2 powi d then d - 1 else d)"

definition round_half_even :: "rat \<Rightarrow> int" where
  "round_half_even r =
     (let f = \<lfloor>r\<rfloor>
      in if r - of_int f < 1 / 2 then f
         else if 1 / 2 < r - of_int f then f + 1
         else if even f then f else f + 1)"

definition round_double :: "rat \<Rightarrow> jsnum" where
  "round_double q =
     (if q = 0 then Num 0
      else
        let a = \<bar>q\<bar>;
            k = max (floor_log2 a - 52) (- 1074);
            r = of_int (round_half_even (a / 2 powi k)) * 2 powi k
        in if 2 powi 1024 \<le> r then (if q < 0 then NInf else PInf)
           else Num (if q < 0 then - r else r))"

fun js_round :: "jsnum \<Rightarrow> jsnum" where
  "js_round (Num q) = round_double q"
| "js_round v = v"

text \<open>A field that is still \<open>undefined\<close> reads as \<open>NaN\<close> in arithmetic and comparisons.\<close>

fun to_number :: "jsnum option \<Rightarrow> jsnum" where
  "to_number None = NaN"
| "to_number (Some v) = v"

section \<open>The widget\<close>

datatype direction = LEFT | RIGHT

datatype error = TypeError

record action_spec =
  name :: string
  caption :: string
  icon :: "string option"

text \<open>\<open>e.changedTouches[0]\<close>: the coordinates of a touch are finite numbers.\<close>

record touch =
  clientX :: rat
  clientY :: rat

text \<open>The \<open>action\<close> event: \<open>new CustomEvent('action', {detail: {name: actionName}})\<close>.\<close>

record custom_event =
  event_type :: string
  detail_name :: string

text \<open>
  A template literal with numbers substituted: \<open>`translateX(${x}px)`\<close> is
  \<open>[Text ''translateX('', Subst x, Text ''px)'']\<close>. The string that the element receives is
  \<open>render fmt\<close> of it, where \<open>fmt\<close> is the number-to-string conversion of the language.
\<close>

datatype piece = Text string | Subst jsnum

fun render_piece :: "(jsnum \<Rightarrow> string) \<Rightarrow> piece \<Rightarrow> string" where
  "render_piece fmt (Text s) = s"
| "render_piece fmt (Subst n) = fmt n"

definition render :: "(jsnum \<Rightarrow> string) \<Rightarrow> piece list \<Rightarrow> string" where
  "render fmt ps = concat (map (render_piece fmt) ps)"

text \<open>
  The closures \<open>step\<close> of \<open>_swipe\<close> and of \<open>_reset\<close>, with the variables they capture:
  \<open>direction\<close> and \<open>pixelPerFrame\<close>.
\<close>

datatype frame_callback = SwipeStep direction jsnum | ResetStep direction jsnum

text \<open>
  The instance, connected, with the configuration it had when \<open>connectedCallback\<close> looked up
  its elements: a side has its placeholder elements exactly when its action is configured.
  \<open>threshold\<close>, \<open>velocity\<close> and \<open>animationTime\<close> are finite numbers; \<open>offsetWidth\<close> and
  \<open>offsetHeight\<close> are the non-negative integers of the layout. The fields written by the
  handlers are \<open>None\<close> while \<open>undefined\<close>. \<open>contentTransform\<close> and its four siblings are the
  \<open>style.transform\<close> of the elements, \<open>None\<close> until first assigned. \<open>frameCallbacks\<close> is the list
  of callbacks handed to \<open>window.requestAnimationFrame\<close> for the next frame, and
  \<open>dispatched\<close> the events given to \<open>dispatchEvent\<close> so far, oldest first.
\<close>

record swipeable =
  leftAction :: "action_spec option"
  rightAction :: "action_spec option"
  threshold :: rat
  velocity :: rat
  animationTime :: rat
  offsetWidth :: nat
  offsetHeight :: nat
  touchStartPoints :: "(rat \<times> rat) option"
  touchStartTime :: "int option"
  translateX :: "jsnum option"
  scaleX :: "jsnum option"
  placeholderTextScaleX :: "jsnum option"
  contentTransform :: "piece list option"
  leftPlaceholderTransform :: "piece list option"
  leftPlaceholderContentTransform :: "piece list option"
  rightPlaceholderTransform :: "piece list option"
  rightPlaceholderContentTransform :: "piece list option"
  frameCallbacks :: "frame_callback list"
  dispatched :: "custom_event list"

definition width :: "swipeable \<Rightarrow> jsnum" where
  "width st = Num (of_nat (offsetWidth st))"

definition height :: "swipeable \<Rightarrow> jsnum" where
  "height st = Num (of_nat (offsetHeight st))"

definition requestAnimationFrame :: "frame_callback \<Rightarrow> swipeable \<Rightarrow> swipeable" where
  "requestAnimationFrame cb st = st\<lparr>frameCallbacks := frameCallbacks st @ [cb]\<rparr>"

subsection \<open>\<open>_transform\<close>\<close>

definition transform :: "jsnum \<Rightarrow> swipeable \<Rightarrow> swipeable" where
  "transform position st =
    (let tx = (if js_lt position (Num 0) then js_max position (js_neg (width st))
               else js_min position (width st));
         sx = js_max (Num 1) (js_abs (js_div tx (Num 100)));
         px = js_min (Num 1) (js_div (Num 100) (js_abs tx));
         st1 = st\<lparr>translateX := Some tx, scaleX := Some sx, placeholderTextScaleX := Some px,
                   contentTransform := Some [Text ''translateX('', Subst tx, Text ''px)'']\<rparr>;
         st2 = (if leftAction st1 \<noteq> None
                then st1\<lparr>leftPlaceholderTransform :=
                           Some [Text ''translateX('', Subst tx, Text ''px) scaleX('', Subst sx],
                         leftPlaceholderContentTransform :=
                           Some [Text ''scaleX('', Subst px, Text '')'']\<rparr>
                else st1)
     in if rightAction st2 \<noteq> None
        then st2\<lparr>rightPlaceholderTransform :=
                   Some [Text ''translateX('', Subst tx, Text ''px) scaleX('', Subst sx],
                 rightPlaceholderContentTransform :=
                   Some [Text ''scaleX('', Subst px, Text '')'']\<rparr>
        else st2)"

subsection \<open>\<open>_dispatchAction\<close>\<close>

definition dispatchAction :: "direction \<Rightarrow> swipeable \<Rightarrow> swipeable" where
  "dispatchAction action st =
    (let actionName =
           (if action = LEFT \<and> leftAction st \<noteq> None then map_option name (leftAction st)
            else if action = RIGHT \<and> rightAction st \<noteq> None then map_option name (rightAction st)
            else None)
     in case actionName of
          None \<Rightarrow> st
        | Some n \<Rightarrow>
            if n = '''' then st
            else st\<lparr>dispatched := dispatched st @ [\<lparr>event_type = ''action'', detail_name = n\<rparr>]\<rparr>)"

subsection \<open>\<open>_swipe\<close> and \<open>_reset\<close>\<close>

definition swipe_step :: "direction \<Rightarrow> jsnum \<Rightarrow> swipeable \<Rightarrow> swipeable" where
  "swipe_step dir pixelPerFrame st =
    (if js_ge (js_abs (to_number (translateX st))) (width st)
     then (dispatchAction dir st)\<lparr>translateX := None\<rparr>
     else
       let transformX =
             (if dir = LEFT
              then js_max (js_round (js_sub (to_number (translateX st)) pixelPerFrame))
                     (js_neg (width st))
              else js_min (js_round (js_add (to_number (translateX st)) pixelPerFrame))
                     (width st))
       in requestAnimationFrame (SwipeStep dir pixelPerFrame) (transform transformX st))"

definition swipe :: "swipeable \<Rightarrow> swipeable" where
  "swipe st =
    (let tx = to_number (translateX st);
         dir = (if js_lt tx (Num 0) then LEFT else RIGHT);
         diff = (if js_lt tx (Num 0) then js_sub (js_neg (width st)) tx
                 else js_sub (width st) tx);
         pixelPerFrame = js_abs (js_div diff (js_mul (Num (animationTime st)) (Num (3 / 50))))
     in requestAnimationFrame (SwipeStep dir pixelPerFrame) st)"

definition reset_step :: "direction \<Rightarrow> jsnum \<Rightarrow> swipeable \<Rightarrow> swipeable" where
  "reset_step dir pixelPerFrame st =
    (if (dir = LEFT \<and> js_ge (to_number (translateX st)) (Num 0))
        \<or> (dir = RIGHT \<and> js_le (to_number (translateX st)) (Num 0))
     then st\<lparr>translateX := None\<rparr>
     else
       let transformX =
             (if dir = LEFT
              then js_min (js_add (to_number (translateX st)) pixelPerFrame) (Num 0)
              else js_max (js_sub (to_number (translateX st)) pixelPerFrame) (Num 0))
       in requestAnimationFrame (ResetStep dir pixelPerFrame) (transform transformX st))"

definition reset :: "swipeable \<Rightarrow> swipeable" where
  "reset st =
    (let tx = to_number (translateX st);
         dir = (if js_lt tx (Num 0) then LEFT else RIGHT);
         pixelPerFrame = js_abs (js_div tx (js_mul (Num (animationTime st)) (Num (3 / 50))))
     in requestAnimationFrame (ResetStep dir pixelPerFrame) st)"

subsection \<open>The touch handlers\<close>

text \<open>
  \<open>now\<close> is \<open>new Date().getTime()\<close>. Reading \<open>this._touchStartPoints[0]\<close> before any
  touch-start has stored it raises a \<open>TypeError\<close>, which ends the handler.
\<close>

definition onTouchStart :: "touch \<Rightarrow> int \<Rightarrow> swipeable \<Rightarrow> swipeable" where
  "onTouchStart e now st =
     st\<lparr>touchStartPoints := Some (clientX e, clientY e), touchStartTime := Some now\<rparr>"

definition onTouchMove :: "touch \<Rightarrow> swipeable \<Rightarrow> error + swipeable" where
  "onTouchMove e st =
    (case touchStartPoints st of
       None \<Rightarrow> Inl TypeError
     | Some (startX, startY) \<Rightarrow>
         let diffX = js_sub (Num (clientX e)) (Num startX);
             diffY = js_sub (Num (clientY e)) (Num startY)
         in if translateX st = None
               \<and> (js_lt (js_div (js_abs diffX) (js_abs diffY)) (Num 1)
                  \<or> js_gt (js_abs diffY) (height st)
                  \<or> js_le (js_abs diffX) (Num (threshold st)))
            then Inr st
            else Inr (transform diffX st))"

definition onTouchEnd :: "touch \<Rightarrow> int \<Rightarrow> swipeable \<Rightarrow> error + swipeable" where
  "onTouchEnd e now st =
    (if translateX st = None then Inr st
     else
       case touchStartPoints st of
         None \<Rightarrow> Inl TypeError
       | Some (startX, startY) \<Rightarrow>
           let diffX = js_sub (Num (clientX e)) (Num startX);
               timeDiff = js_sub (Num (of_int now))
                                 (to_number (map_option (\<lambda>t. Num (of_int t)) (touchStartTime st)));
               v = js_div (js_abs diffX) timeDiff
           in if js_gt v (Num (velocity st))
                 \<or> js_gt (js_abs diffX) (js_div (width st) (Num 2))
              then Inr (swipe st)
              else Inr (reset st))"

subsection \<open>Animation frames\<close>

text \<open>
  At a frame the browser runs the callbacks that were registered before the frame, in order;
  what they register runs at the next frame.
\<close>

fun run_callback :: "frame_callback \<Rightarrow> swipeable \<Rightarrow> swipeable" where
  "run_callback (SwipeStep dir p) st = swipe_step dir p st"
| "run_callback (ResetStep dir p) st = reset_step dir p st"

definition animationFrame :: "swipeable \<Rightarrow> swipeable" where
  "animationFrame st = fold run_callback (frameCallbacks st) (st\<lparr>frameCallbacks := []\<rparr>)"

text \<open>
  Frames follow each other until no callback is registered. \<open>run_frames n\<close> gives up after
  \<open>n\<close> frames: \<open>None\<close> says that the animation was still running then.
\<close>

fun run_frames :: "nat \<Rightarrow> swipeable \<Rightarrow> swipeable option" where
  "run_frames 0 st = (if frameCallbacks st = [] then Some st else None)"
| "run_frames (Suc n) st =
     (if frameCallbacks st = [] then Some st else run_frames n (animationFrame st))"

subsection \<open>Observations used by the statements\<close>

text \<open>
  The instance as the constructor leaves it (\<open>threshold = 10\<close>, \<open>velocity = 0.3\<close>,
  \<open>animationTime = 200\<close>), with the given actions, laid out \<open>w\<close> by \<open>h\<close> pixels, before
  any touch.
\<close>

definition mounted ::
  "action_spec option \<Rightarrow> action_spec option \<Rightarrow> nat \<Rightarrow> nat \<Rightarrow> swipeable" where
  "mounted la ra w h =
    \<lparr>leftAction = la, rightAction = ra, threshold = 10, velocity = 3 / 10, animationTime = 200,
     offsetWidth = w, offsetHeight = h, touchStartPoints = None, touchStartTime = None,
     translateX = None, scaleX = None, placeholderTextScaleX = None,
     contentTransform = None, leftPlaceholderTransform = None,
     leftPlaceholderContentTransform = None, rightPlaceholderTransform = None,
     rightPlaceholderContentTransform = None, frameCallbacks = [], dispatched = []\<rparr>"

text \<open>The action of the repository's demo page.\<close>

definition delete_action :: action_spec where
  "delete_action = \<lparr>name = ''DELETE'', caption = ''Delete'', icon = Some ''delete''\<rparr>"

text \<open>
  The demo's widget, 300 by 50 pixels, after a touch-start at the origin at time 0 and
  touch-moves of which the last one applied the offset \<open>x\<close>.
\<close>

definition dragging :: "rat \<Rightarrow> swipeable" where
  "dragging x = transform (Num x)
     (onTouchStart \<lparr>clientX = 0, clientY = 0\<rparr> 0
        (mounted (Some delete_action) (Some delete_action) 300 50))"

text \<open>
  The source has no variable for the phase of a gesture. The commit animation is in progress
  when a \<open>step\<close> of \<open>_swipe\<close> is registered for the next frame, the reset animation when a
  \<open>step\<close> of \<open>_reset\<close> is.
\<close>

fun is_swipe_step :: "frame_callback \<Rightarrow> bool" where
  "is_swipe_step (SwipeStep _ _) = True"
| "is_swipe_step (ResetStep _ _) = False"

definition committing :: "swipeable \<Rightarrow> bool" where
  "committing st = list_ex is_swipe_step (frameCallbacks st)"

definition resetting :: "swipeable \<Rightarrow> bool" where
  "resetting st = list_ex (\<lambda>cb. \<not> is_swipe_step cb) (frameCallbacks st)"

fun callback_direction :: "frame_callback \<Rightarrow> direction" where
  "callback_direction (SwipeStep dir _) = dir"
| "callback_direction (ResetStep dir _) = dir"

subsection \<open>Notions for the proofs about the animations\<close>

text \<open>
  None of the following is in the source. \<open>toward\<close> is the sign of a direction, so that an
  offset is \<open>toward dir * u\<close> with \<open>u\<close> its distance from the origin. A step size is
  \<open>positive_step\<close> when it is a positive number or \<open>Infinity\<close>. \<open>swipe_offset\<close> is the offset
  that a frame of the commit animation passes to \<open>_transform\<close> when it finds the offset \<open>y\<close>;
  \<open>retreat\<close> is the distance from the origin after one frame of the reset animation, and
  \<open>enough ppf gap k\<close> says that \<open>k\<close> frames of it cover the distance \<open>gap\<close>.
  \<open>swipe_pixelPerFrame\<close> and \<open>reset_pixelPerFrame\<close> are the values of \<open>pixelPerFrame\<close> that
  \<open>_swipe\<close> and \<open>_reset\<close> compute from a finite stored offset \<open>x\<close>. \<open>tracking st x\<close> describes
  the instance between a touch-move that applied the offset \<open>x\<close> and the touch-end, with no
  animation running; \<open>swipe_running\<close>, \<open>swipe_done\<close>, \<open>reset_running\<close> and \<open>reset_done\<close>
  describe it during and after an animation that began in \<open>st0\<close>.
\<close>

fun toward :: "direction \<Rightarrow> rat" where
  "toward LEFT = - 1"
| "toward RIGHT = 1"

fun positive_step :: "jsnum \<Rightarrow> bool" where
  "positive_step (Num p) = (0 < p)"
| "positive_step PInf = True"
| "positive_step _ = False"


fun retreat :: "jsnum \<Rightarrow> rat \<Rightarrow> rat" where
  "retreat (Num p) u = max (u - p) 0"
| "retreat _ u = 0"

fun enough :: "jsnum \<Rightarrow> rat \<Rightarrow> nat \<Rightarrow> bool" where
  "enough (Num p) gap k = (gap \<le> of_nat k * p)"
| "enough _ gap k = (gap \<le> 0 \<or> 0 < k)"

definition same_env :: "swipeable \<Rightarrow> swipeable \<Rightarrow> bool" where
  "same_env st0 s \<longleftrightarrow> leftAction s = leftAction st0 \<and> rightAction s = rightAction st0
      \<and> offsetWidth s = offsetWidth st0"



definition reset_running :: "direction \<Rightarrow> jsnum \<Rightarrow> swipeable \<Rightarrow> swipeable \<Rightarrow> rat \<Rightarrow> bool" where
  "reset_running d ppf st0 s u \<longleftrightarrow>
     frameCallbacks s = [ResetStep d ppf] \<and> translateX s = Some (Num (toward d * u))
     \<and> contentTransform s = Some [Text ''translateX('', Subst (Num (toward d * u)), Text ''px)'']
     \<and> 0 \<le> u \<and> u \<le> of_nat (offsetWidth st0) \<and> dispatched s = dispatched st0 \<and> same_env st0 s"

definition reset_done :: "swipeable \<Rightarrow> swipeable \<Rightarrow> bool" where
  "reset_done st0 s \<longleftrightarrow>
     frameCallbacks s = [] \<and> translateX s = None
     \<and> contentTransform s = Some [Text ''translateX('', Subst (Num 0), Text ''px)'']
     \<and> dispatched s = dispatched st0 \<and> same_env st0 s"


definition reset_pixelPerFrame :: "swipeable \<Rightarrow> rat \<Rightarrow> jsnum" where
  "reset_pixelPerFrame st x =
     (if animationTime st = 0 then (if x = 0 then NaN else PInf)
      else Num \<bar>x / (animationTime st * (3 / 50))\<bar>)"

definition tracking :: "swipeable \<Rightarrow> rat \<Rightarrow> bool" where
  "tracking st x \<longleftrightarrow> translateX st = Some (Num x) \<and> \<bar>x\<bar> \<le> of_nat (offsetWidth st)
     \<and> contentTransform st = Some [Text ''translateX('', Subst (Num x), Text ''px)'']
     \<and> frameCallbacks st = []"

section \<open>Arithmetic on finite numbers\<close>

lemma js_gt_Num [simp]: "js_gt (Num a) (Num b) = (b < a)"
  by (simp add: js_gt_def)

lemma js_le_Num [simp]: "js_le (Num a) (Num b) = (a \<le> b)"
  by (auto simp: js_le_def)

lemma js_ge_Num [simp]: "js_ge (Num a) (Num b) = (b \<le> a)"
  by (simp add: js_ge_def)

lemma js_sub_Num [simp]: "js_sub (Num a) (Num b) = Num (a - b)"
  by (simp add: js_sub_def)

lemma js_max_Num [simp]: "js_max (Num a) (Num b) = Num (max a b)"
  by (simp add: js_max_def max_def)

lemma js_min_Num [simp]: "js_min (Num a) (Num b) = Num (min a b)"
  by (auto simp: js_min_def min_def)

lemma js_min_Num_PInf [simp]: "js_min (Num a) PInf = Num a"
  by (simp add: js_min_def)

lemma js_min_PInf_Num [simp]: "js_min PInf (Num a) = Num a"
  by (simp add: js_min_def)

lemma js_max_NInf_Num [simp]: "js_max NInf (Num a) = Num a"
  by (simp add: js_max_def)

lemma js_gt_PInf_Num [simp]: "js_gt PInf (Num a)"
  by (simp add: js_gt_def)

lemma js_gt_NaN [simp]: "\<not> js_gt NaN a"
  by (cases a) (simp_all add: js_gt_def)

lemma js_gt_NInf [simp]: "\<not> js_gt NInf a"
  by (cases a) (simp_all add: js_gt_def)

section \<open>The Transform Applier\<close>

lemma transform_translateX:
  "translateX (transform (Num x) st) =
     Some (Num (if x < 0 then max x (- of_nat (offsetWidth st)) else min x (of_nat (offsetWidth st))))"
  by (simp add: transform_def Let_def width_def)

lemma transform_scaleX:
  "translateX (transform pos st) = Some (Num t) \<Longrightarrow>
   scaleX (transform pos st) = Some (Num (max 1 \<bar>t / 100\<bar>))"
  by (simp add: transform_def Let_def width_def split: if_splits)

lemma transform_placeholderTextScaleX:
  "translateX (transform pos st) = Some (Num t) \<Longrightarrow>
   placeholderTextScaleX (transform pos st) = Some (Num (if t = 0 then 1 else min 1 (100 / \<bar>t\<bar>)))"
  by (simp add: transform_def Let_def width_def split: if_splits)

text \<open>
  C3. After \<open>_transform\<close> with any finite signed offset the stored \<open>_translateX\<close> is a finite
  number between minus the width and the width, \<open>_scaleX\<close> is a finite number that is at
  least 1, and \<open>_placeholderTextScaleX\<close> is a finite number between 0 and 1. For the offset
  0 the division \<open>100 / 0\<close> is \<open>Infinity\<close>, of which \<open>Math.min\<close> with 1 leaves exactly 1.
\<close>

theorem transform_bounds:
  "(\<exists>t s p. translateX (transform (Num x) st) = Some (Num t)
        \<and> - of_nat (offsetWidth st) \<le> t \<and> t \<le> of_nat (offsetWidth st)
        \<and> scaleX (transform (Num x) st) = Some (Num s) \<and> 1 \<le> s
        \<and> placeholderTextScaleX (transform (Num x) st) = Some (Num p) \<and> 0 \<le> p \<and> p \<le> 1)
   \<and> placeholderTextScaleX (transform (Num 0) st) = Some (Num 1)"
proof
  define t where "t = (if x < 0 then max x (- of_nat (offsetWidth st)) else min x (rat_of_nat (offsetWidth st)))"
  have tx: "translateX (transform (Num x) st) = Some (Num t)"
    by (simp add: transform_translateX t_def)
  have lo: "- of_nat (offsetWidth st) \<le> t" and hi: "t \<le> of_nat (offsetWidth st)"
    by (auto simp: t_def)
  have sx: "scaleX (transform (Num x) st) = Some (Num (max 1 \<bar>t / 100\<bar>))"
    by (rule transform_scaleX [OF tx])
  have px: "placeholderTextScaleX (transform (Num x) st)
              = Some (Num (if t = 0 then 1 else min 1 (100 / \<bar>t\<bar>)))"
    by (rule transform_placeholderTextScaleX [OF tx])
  have p0: "0 \<le> (if t = 0 then 1 else min 1 (100 / \<bar>t\<bar>))"
    by simp
  have p1: "(if t = 0 then 1 else min 1 (100 / \<bar>t\<bar>)) \<le> 1"
    by simp
  show "\<exists>t s p. translateX (transform (Num x) st) = Some (Num t)
        \<and> - of_nat (offsetWidth st) \<le> t \<and> t \<le> of_nat (offsetWidth st)
        \<and> scaleX (transform (Num x) st) = Some (Num s) \<and> 1 \<le> s
        \<and> placeholderTextScaleX (transform (Num x) st) = Some (Num p) \<and> 0 \<le> p \<and> p \<le> 1"
    using tx lo hi sx px p0 p1 by (intro exI conjI) (assumption | simp)+
next
  have "translateX (transform (Num 0) st) = Some (Num 0)"
    by (simp add: transform_translateX)
  from transform_placeholderTextScaleX [OF this]
  show "placeholderTextScaleX (transform (Num 0) st) = Some (Num 1)" by simp
qed

section \<open>The Action Dispatcher\<close>

text \<open>
  C6. \<open>_dispatchAction\<close> takes the name of the left action for \<open>LEFT\<close> and of the right action
  for \<open>RIGHT\<close>. With a configured action of a non-empty name it appends exactly one \<open>action\<close>
  event that carries this name and changes nothing else; with no action on that side, or an
  action of the empty name, it changes nothing at all.
\<close>

theorem dispatch_rule:
  "(leftAction st = Some a \<and> name a \<noteq> '''' \<longrightarrow>
      dispatchAction LEFT st
        = st\<lparr>dispatched := dispatched st @ [\<lparr>event_type = ''action'', detail_name = name a\<rparr>]\<rparr>)
   \<and> (rightAction st = Some b \<and> name b \<noteq> '''' \<longrightarrow>
      dispatchAction RIGHT st
        = st\<lparr>dispatched := dispatched st @ [\<lparr>event_type = ''action'', detail_name = name b\<rparr>]\<rparr>)
   \<and> (leftAction st = None \<or> map_option name (leftAction st) = Some '''' \<longrightarrow>
      dispatchAction LEFT st = st)
   \<and> (rightAction st = None \<or> map_option name (rightAction st) = Some '''' \<longrightarrow>
      dispatchAction RIGHT st = st)"
  by (auto simp: dispatchAction_def)

theorem dispatch_rule_witness:
  "leftAction (mounted (Some delete_action) (Some (delete_action\<lparr>name := ''''\<rparr>)) 300 50)
     = Some delete_action
   \<and> name delete_action \<noteq> ''''
   \<and> dispatchAction LEFT (mounted (Some delete_action) (Some (delete_action\<lparr>name := ''''\<rparr>)) 300 50)
     = (mounted (Some delete_action) (Some (delete_action\<lparr>name := ''''\<rparr>)) 300 50)
         \<lparr>dispatched := [\<lparr>event_type = ''action'', detail_name = ''DELETE''\<rparr>]\<rparr>
   \<and> map_option name
         (rightAction (mounted (Some delete_action) (Some (delete_action\<lparr>name := ''''\<rparr>)) 300 50))
     = Some ''''
   \<and> dispatchAction RIGHT (mounted (Some delete_action) (Some (delete_action\<lparr>name := ''''\<rparr>)) 300 50)
     = mounted (Some delete_action) (Some (delete_action\<lparr>name := ''''\<rparr>)) 300 50"
  using dispatch_rule [of "mounted (Some delete_action) (Some (delete_action\<lparr>name := ''''\<rparr>)) 300 50"
                          delete_action delete_action]
  by (simp add: mounted_def delete_action_def)

section \<open>Touch-end: commit or reset\<close>

lemma committing_swipe [simp]:
  "frameCallbacks st = [] \<Longrightarrow> committing (swipe st)"
  "frameCallbacks st = [] \<Longrightarrow> \<not> resetting (swipe st)"
  by (simp_all add: committing_def resetting_def swipe_def Let_def requestAnimationFrame_def)

lemma resetting_reset [simp]:
  "frameCallbacks st = [] \<Longrightarrow> resetting (reset st)"
  "frameCallbacks st = [] \<Longrightarrow> \<not> committing (reset st)"
  by (simp_all add: committing_def resetting_def reset_def Let_def requestAnimationFrame_def)

lemma dragging_fields:
  "translateX (dragging (-200)) = Some (Num (-200))"
  "translateX (dragging (-20)) = Some (Num (-20))"
  "translateX (dragging 0) = Some (Num 0)"
  "touchStartPoints (dragging x) = Some (0, 0)"
  "touchStartTime (dragging x) = Some 0"
  "frameCallbacks (dragging x) = []"
  "offsetWidth (dragging x) = 300"
  "velocity (dragging x) = 3 / 10"
  by (simp_all add: dragging_def transform_def Let_def onTouchStart_def mounted_def width_def)

text \<open>
  C1. A touch-end that finds a transform in progress, with no animation running, starts the
  commit animation exactly when \<open>|diffX| / elapsed\<close>, computed as the language computes it,
  is greater than \<open>velocity\<close> or \<open>|diffX|\<close> is greater than half of the width, and starts the
  reset animation otherwise. For a positive elapsed time the quotient is the quotient of
  rationals. Each of the two conditions alone commits.
\<close>

theorem touch_end_commit_rule:
  assumes "translateX st = Some tx" and "touchStartPoints st = Some (sx, sy)"
    and "touchStartTime st = Some t0" and "frameCallbacks st = []"
  shows "\<exists>st'. onTouchEnd e now st = Inr st'
     \<and> (committing st' \<longleftrightarrow>
          js_gt (js_div (Num \<bar>clientX e - sx\<bar>) (Num (of_int (now - t0)))) (Num (velocity st))
          \<or> of_nat (offsetWidth st) / 2 < \<bar>clientX e - sx\<bar>)
     \<and> (resetting st' \<longleftrightarrow> \<not> committing st')
     \<and> st' = (if committing st' then swipe st else reset st)
     \<and> (t0 < now \<longrightarrow>
          (committing st' \<longleftrightarrow>
             velocity st < \<bar>clientX e - sx\<bar> / of_int (now - t0)
             \<or> of_nat (offsetWidth st) / 2 < \<bar>clientX e - sx\<bar>))"
proof -
  let ?c = "js_gt (js_div (Num \<bar>clientX e - sx\<bar>) (Num (of_int (now - t0)))) (Num (velocity st))
          \<or> of_nat (offsetWidth st) / 2 < \<bar>clientX e - sx\<bar>"
  have eq: "onTouchEnd e now st = Inr (if ?c then swipe st else reset st)"
    using assms by (simp add: onTouchEnd_def Let_def width_def)
  have pos: "t0 < now \<Longrightarrow>
     js_gt (js_div (Num \<bar>clientX e - sx\<bar>) (Num (of_int (now - t0)))) (Num (velocity st))
       = (velocity st < \<bar>clientX e - sx\<bar> / of_int (now - t0))"
    by simp
  show ?thesis
  proof (cases ?c)
    case True
    with eq have "onTouchEnd e now st = Inr (swipe st)" by simp
    with True assms(4) pos show ?thesis by auto
  next
    case False
    with eq have "onTouchEnd e now st = Inr (reset st)" by simp
    with False assms(4) pos show ?thesis by auto
  qed
qed

text \<open>
  A swipe of 200 pixels in 10 seconds commits by its length alone, a swipe of 20 pixels in
  10 milliseconds by its speed alone, and a swipe of 20 pixels in half a second resets.
\<close>

theorem touch_end_commit_rule_witness:
  "translateX (dragging (-200)) = Some (Num (-200))
   \<and> touchStartPoints (dragging (-200)) = Some (0, 0)
   \<and> touchStartTime (dragging (-200)) = Some 0
   \<and> frameCallbacks (dragging (-200)) = []
   \<and> (\<exists>st'. onTouchEnd \<lparr>clientX = -200, clientY = 0\<rparr> 10000 (dragging (-200)) = Inr st'
          \<and> committing st' \<and> \<not> resetting st'
          \<and> \<not> (velocity (dragging (-200)) < \<bar>-200 - 0\<bar> / of_int (10000 - 0)))
   \<and> (\<exists>st'. onTouchEnd \<lparr>clientX = -20, clientY = 0\<rparr> 10 (dragging (-20)) = Inr st'
          \<and> committing st' \<and> \<not> resetting st'
          \<and> \<not> (of_nat (offsetWidth (dragging (-20))) / 2 < \<bar>(-20 - 0)::rat\<bar>))
   \<and> (\<exists>st'. onTouchEnd \<lparr>clientX = -20, clientY = 0\<rparr> 500 (dragging (-20)) = Inr st'
          \<and> resetting st' \<and> \<not> committing st')"
  using touch_end_commit_rule [OF dragging_fields(1) dragging_fields(4) dragging_fields(5)
          dragging_fields(6), of "\<lparr>clientX = -200, clientY = 0\<rparr>" 10000]
        touch_end_commit_rule [OF dragging_fields(2) dragging_fields(4) dragging_fields(5)
          dragging_fields(6), of "\<lparr>clientX = -20, clientY = 0\<rparr>" 10]
        touch_end_commit_rule [OF dragging_fields(2) dragging_fields(4) dragging_fields(5)
          dragging_fields(6), of "\<lparr>clientX = -20, clientY = 0\<rparr>" 500]
  by (auto simp: dragging_fields)

section \<open>Touch-move\<close>

lemma started_fields:
  "touchStartPoints (onTouchStart \<lparr>clientX = 0, clientY = 0\<rparr> 0 (mounted la ra w h)) = Some (0, 0)"
  "translateX (onTouchStart \<lparr>clientX = 0, clientY = 0\<rparr> 0 (mounted la ra w h)) = None"
  "offsetHeight (onTouchStart \<lparr>clientX = 0, clientY = 0\<rparr> 0 (mounted la ra w h)) = h"
  "threshold (onTouchStart \<lparr>clientX = 0, clientY = 0\<rparr> 0 (mounted la ra w h)) = 10"
  "rightAction (onTouchStart \<lparr>clientX = 0, clientY = 0\<rparr> 0 (mounted la ra w h)) = ra"
  "leftAction (onTouchStart \<lparr>clientX = 0, clientY = 0\<rparr> 0 (mounted la ra w h)) = la"
  "offsetWidth (onTouchStart \<lparr>clientX = 0, clientY = 0\<rparr> 0 (mounted la ra w h)) = w"
  by (simp_all add: onTouchStart_def mounted_def)

lemma horizontal_ratio:
  "js_lt (js_div (js_abs (Num dx)) (js_abs (Num dy))) (Num 1)
     \<longleftrightarrow> \<not> (dy = 0 \<or> 1 \<le> \<bar>dx\<bar> / \<bar>dy\<bar>)"
  by auto

lemma onTouchMove_tracking:
  assumes "touchStartPoints st = Some (sx, sy)" and "translateX st \<noteq> None"
  shows "onTouchMove e st = Inr (transform (Num (clientX e - sx)) st)"
proof -
  from assms(2) obtain t where "translateX st = Some t" by auto
  with assms(1) show ?thesis by (simp add: onTouchMove_def Let_def)
qed

lemma onTouchMove_idle:
  assumes "touchStartPoints st = Some (sx, sy)" and "translateX st = None"
  shows "onTouchMove e st =
     Inr (if (clientY e - sy = 0 \<or> 1 \<le> \<bar>clientX e - sx\<bar> / \<bar>clientY e - sy\<bar>)
             \<and> \<bar>clientY e - sy\<bar> \<le> of_nat (offsetHeight st)
             \<and> threshold st < \<bar>clientX e - sx\<bar>
          then transform (Num (clientX e - sx)) st else st)"
proof -
  define G where "G \<longleftrightarrow> (clientY e - sy = 0 \<or> 1 \<le> \<bar>clientX e - sx\<bar> / \<bar>clientY e - sy\<bar>)
             \<and> \<bar>clientY e - sy\<bar> \<le> of_nat (offsetHeight st)
             \<and> threshold st < \<bar>clientX e - sx\<bar>"
  have tall: "js_gt (js_abs (Num (clientY e - sy))) (height st)
                \<longleftrightarrow> \<not> \<bar>clientY e - sy\<bar> \<le> of_nat (offsetHeight st)"
    by (simp add: height_def not_le)
  have short: "js_le (js_abs (Num (clientX e - sx))) (Num (threshold st))
                \<longleftrightarrow> \<not> threshold st < \<bar>clientX e - sx\<bar>"
    by (simp add: not_less)
  have gate: "(js_lt (js_div (js_abs (Num (clientX e - sx))) (js_abs (Num (clientY e - sy)))) (Num 1)
         \<or> js_gt (js_abs (Num (clientY e - sy))) (height st)
         \<or> js_le (js_abs (Num (clientX e - sx))) (Num (threshold st))) \<longleftrightarrow> \<not> G"
    unfolding horizontal_ratio tall short G_def by blast
  have "onTouchMove e st =
     (if js_lt (js_div (js_abs (Num (clientX e - sx))) (js_abs (Num (clientY e - sy)))) (Num 1)
         \<or> js_gt (js_abs (Num (clientY e - sy))) (height st)
         \<or> js_le (js_abs (Num (clientX e - sx))) (Num (threshold st))
      then Inr st else Inr (transform (Num (clientX e - sx)) st))"
    using assms by (simp add: onTouchMove_def Let_def del: js_abs.simps js_div.simps js_lt.simps)
  also have "\<dots> = Inr (if G then transform (Num (clientX e - sx)) st else st)"
    unfolding gate by simp
  finally show ?thesis unfolding G_def .
qed

text \<open>
  C2. After a touch-start, a touch-move that finds no transform in progress begins one
  exactly when the motion is at least as horizontal as vertical (no vertical motion at all
  counts as horizontal), the vertical motion is at most the height of the widget and the
  horizontal motion is greater than \<open>threshold\<close>; otherwise it leaves the instance as it
  was. A touch-move that finds a transform in progress always applies its \<open>diffX\<close>. Whenever
  a transform is applied, it is \<open>_transform(diffX)\<close>.
\<close>

theorem touch_move_gate:
  assumes "touchStartPoints st = Some (sx, sy)"
  shows "\<exists>st'. onTouchMove e st = Inr st'
     \<and> (translateX st = None \<longrightarrow>
          (translateX st' \<noteq> None \<longleftrightarrow>
             (clientY e - sy = 0 \<or> 1 \<le> \<bar>clientX e - sx\<bar> / \<bar>clientY e - sy\<bar>)
             \<and> \<bar>clientY e - sy\<bar> \<le> of_nat (offsetHeight st)
             \<and> threshold st < \<bar>clientX e - sx\<bar>))
     \<and> (translateX st = None \<and> translateX st' = None \<longrightarrow> st' = st)
     \<and> (translateX st' \<noteq> None \<longrightarrow> st' = transform (Num (clientX e - sx)) st)
     \<and> (translateX st \<noteq> None \<longrightarrow> translateX st' \<noteq> None)"
proof -
  have tr: "translateX (transform (Num (clientX e - sx)) st) \<noteq> None"
    by (simp add: transform_translateX)
  show ?thesis
  proof (cases "translateX st = None")
    case True
    show ?thesis
      unfolding onTouchMove_idle [OF assms True] using True tr by auto
  next
    case False
    show ?thesis
      unfolding onTouchMove_tracking [OF assms False] using False tr by auto
  qed
qed

theorem touch_move_gate_witness:
  "touchStartPoints (onTouchStart \<lparr>clientX = 0, clientY = 0\<rparr> 0
      (mounted (Some delete_action) (Some delete_action) 300 50)) = Some (0, 0)
   \<and> (\<exists>st'. onTouchMove \<lparr>clientX = 11, clientY = 11\<rparr>
          (onTouchStart \<lparr>clientX = 0, clientY = 0\<rparr> 0
             (mounted (Some delete_action) (Some delete_action) 300 50)) = Inr st'
        \<and> translateX st' = Some (Num 11))
   \<and> (\<exists>st'. onTouchMove \<lparr>clientX = 10, clientY = 0\<rparr>
          (onTouchStart \<lparr>clientX = 0, clientY = 0\<rparr> 0
             (mounted (Some delete_action) (Some delete_action) 300 50)) = Inr st'
        \<and> translateX st' = None)
   \<and> touchStartPoints (dragging (-20)) = Some (0, 0)
   \<and> (\<exists>st'. onTouchMove \<lparr>clientX = 3, clientY = 400\<rparr> (dragging (-20)) = Inr st'
        \<and> translateX st' = Some (Num 3))"
  using touch_move_gate [OF started_fields(1), of "\<lparr>clientX = 11, clientY = 11\<rparr>"
          "Some delete_action" "Some delete_action" 300 50]
        touch_move_gate [OF started_fields(1), of "\<lparr>clientX = 10, clientY = 0\<rparr>"
          "Some delete_action" "Some delete_action" 300 50]
        touch_move_gate [OF dragging_fields(4), of "\<lparr>clientX = 3, clientY = 400\<rparr>" "-20"]
  by (auto simp: started_fields dragging_fields transform_translateX)

section \<open>Touch-end without a transform\<close>

text \<open>
  C9. A touch-end that finds \<open>_translateX\<close> undefined returns at once: the instance is left
  as it was, so no callback is registered, no event is dispatched and no style is written.
\<close>

theorem touch_end_idle_noop:
  "translateX st = None \<Longrightarrow> onTouchEnd e now st = Inr st"
  by (simp add: onTouchEnd_def)

theorem touch_end_idle_noop_witness:
  "translateX (onTouchStart \<lparr>clientX = 5, clientY = 7\<rparr> 1000
      (mounted (Some delete_action) None 300 50)) = None
   \<and> onTouchEnd \<lparr>clientX = 9, clientY = 7\<rparr> 1200
        (onTouchStart \<lparr>clientX = 5, clientY = 7\<rparr> 1000 (mounted (Some delete_action) None 300 50))
      = Inr (onTouchStart \<lparr>clientX = 5, clientY = 7\<rparr> 1000
               (mounted (Some delete_action) None 300 50))"
proof -
  have h: "translateX (onTouchStart \<lparr>clientX = 5, clientY = 7\<rparr> 1000
             (mounted (Some delete_action) None 300 50)) = None"
    by (simp add: onTouchStart_def mounted_def)
  show ?thesis
    using h touch_end_idle_noop [OF h, of "\<lparr>clientX = 9, clientY = 7\<rparr>" 1200] by simp
qed

section \<open>The direction of the animation\<close>

lemma swipe_callbacks:
  "frameCallbacks (swipe st) = frameCallbacks st @
     [SwipeStep (if js_lt (to_number (translateX st)) (Num 0) then LEFT else RIGHT)
        (js_abs (js_div (if js_lt (to_number (translateX st)) (Num 0)
                         then js_sub (js_neg (width st)) (to_number (translateX st))
                         else js_sub (width st) (to_number (translateX st)))
                        (js_mul (Num (animationTime st)) (Num (3 / 50)))))]"
  by (simp add: swipe_def Let_def requestAnimationFrame_def)

lemma reset_callbacks:
  "frameCallbacks (reset st) = frameCallbacks st @
     [ResetStep (if js_lt (to_number (translateX st)) (Num 0) then LEFT else RIGHT)
        (js_abs (js_div (to_number (translateX st))
                        (js_mul (Num (animationTime st)) (Num (3 / 50)))))]"
  by (simp add: reset_def Let_def requestAnimationFrame_def)

lemma onTouchEnd_cases:
  assumes "translateX st = Some tx" and "touchStartPoints st = Some (sx, sy)"
  shows "onTouchEnd e now st = Inr (swipe st) \<or> onTouchEnd e now st = Inr (reset st)"
  using assms by (simp add: onTouchEnd_def Let_def)

text \<open>
  C10. The \<open>step\<close> that a touch-end registers carries the direction given by the sign of the
  stored \<open>_translateX\<close> alone, whatever the coordinates and the time of the touch-end:
  \<open>LEFT\<close> exactly for a negative stored offset, \<open>RIGHT\<close> otherwise, also for the offset 0.
  The commit animation dispatches the action of that direction when it completes.
\<close>

theorem touch_end_direction:
  assumes "translateX st = Some tx" and "touchStartPoints st = Some (sx, sy)"
  shows "\<exists>st' cb. onTouchEnd e now st = Inr st'
      \<and> frameCallbacks st' = frameCallbacks st @ [cb]
      \<and> callback_direction cb = (if js_lt tx (Num 0) then LEFT else RIGHT)
      \<and> (\<forall>x. tx = Num x \<longrightarrow> (callback_direction cb = LEFT \<longleftrightarrow> x < 0))
      \<and> (\<forall>s. is_swipe_step cb \<and> js_ge (js_abs (to_number (translateX s))) (width s) \<longrightarrow>
            run_callback cb s
              = (dispatchAction (if js_lt tx (Num 0) then LEFT else RIGHT) s)\<lparr>translateX := None\<rparr>)"
proof -
  from onTouchEnd_cases [OF assms, of e now]
  show ?thesis
  proof
    assume "onTouchEnd e now st = Inr (swipe st)"
    then show ?thesis
      using assms(1) by (auto simp: swipe_callbacks swipe_step_def)
  next
    assume "onTouchEnd e now st = Inr (reset st)"
    then show ?thesis
      using assms(1) by (auto simp: reset_callbacks)
  qed
qed

theorem touch_end_direction_witness:
  "translateX (dragging (-200)) = Some (Num (-200))
   \<and> touchStartPoints (dragging (-200)) = Some (0, 0)
   \<and> (\<exists>st' cb. onTouchEnd \<lparr>clientX = 200, clientY = 0\<rparr> 100 (dragging (-200)) = Inr st'
         \<and> frameCallbacks st' = [cb] \<and> callback_direction cb = LEFT)
   \<and> translateX (dragging 0) = Some (Num 0)
   \<and> (\<exists>st' cb. onTouchEnd \<lparr>clientX = -5, clientY = 0\<rparr> 100 (dragging 0) = Inr st'
         \<and> frameCallbacks st' = [cb] \<and> callback_direction cb = RIGHT)"
  using touch_end_direction [OF dragging_fields(1) dragging_fields(4),
          of "\<lparr>clientX = 200, clientY = 0\<rparr>" 100]
        touch_end_direction [OF dragging_fields(3) dragging_fields(4),
          of "\<lparr>clientX = -5, clientY = 0\<rparr>" 100]
  by (auto simp: dragging_fields)

section \<open>A side without an action\<close>

lemma transform_right_absent:
  "rightAction st = None \<Longrightarrow>
     rightPlaceholderTransform (transform p st) = rightPlaceholderTransform st
     \<and> rightPlaceholderContentTransform (transform p st) = rightPlaceholderContentTransform st"
  by (simp add: transform_def Let_def)

lemma transform_left_absent:
  "leftAction st = None \<Longrightarrow>
     leftPlaceholderTransform (transform p st) = leftPlaceholderTransform st
     \<and> leftPlaceholderContentTransform (transform p st) = leftPlaceholderContentTransform st"
  by (simp add: transform_def Let_def)

lemma transform_translateX_any:
  "translateX (transform p st) =
     Some (if js_lt p (Num 0) then js_max p (js_neg (width st)) else js_min p (width st))"
  by (simp add: transform_def Let_def)

lemma onTouchMove_ignores_actions:
  "map_sum id translateX (onTouchMove e (st\<lparr>leftAction := la, rightAction := ra\<rparr>))
     = map_sum id translateX (onTouchMove e st)"
proof (cases "touchStartPoints st")
  case None
  then show ?thesis by (simp add: onTouchMove_def)
next
  case (Some pt)
  obtain sx sy where pt: "pt = (sx, sy)" by (cases pt)
  show ?thesis
  proof (cases "translateX st")
    case None
    with Some pt show ?thesis
      by (simp add: onTouchMove_def Let_def transform_translateX_any width_def height_def
               del: js_abs.simps js_div.simps js_lt.simps)
  next
    case (Some t)
    with \<open>touchStartPoints st = Some pt\<close> pt show ?thesis
      by (simp add: onTouchMove_def Let_def transform_translateX_any width_def height_def
               del: js_abs.simps js_div.simps js_lt.simps)
  qed
qed

text \<open>
  C7, as the spec states it, fails: with no right action configured, a touch-move of 50
  pixels to the right begins a transform.
\<close>

theorem unconfigured_side_swipe_counterexample:
  "rightAction (onTouchStart \<lparr>clientX = 0, clientY = 0\<rparr> 0 (mounted (Some delete_action) None 300 50))
     = None
   \<and> translateX (onTouchStart \<lparr>clientX = 0, clientY = 0\<rparr> 0 (mounted (Some delete_action) None 300 50))
     = None
   \<and> onTouchMove \<lparr>clientX = 50, clientY = 0\<rparr>
       (onTouchStart \<lparr>clientX = 0, clientY = 0\<rparr> 0 (mounted (Some delete_action) None 300 50))
     = Inr (transform (Num 50)
            (onTouchStart \<lparr>clientX = 0, clientY = 0\<rparr> 0 (mounted (Some delete_action) None 300 50)))
   \<and> translateX (transform (Num 50)
       (onTouchStart \<lparr>clientX = 0, clientY = 0\<rparr> 0 (mounted (Some delete_action) None 300 50)))
     = Some (Num 50)"
  by (simp add: onTouchMove_idle [OF started_fields(1) started_fields(2)] started_fields
        transform_translateX)

text \<open>
  C7, amended. For a side with no configured action, \<open>_dispatchAction\<close> for that side
  does nothing and \<open>_transform\<close> leaves the styles of that side's placeholder untouched. The
  offset that a touch-move stores does not depend on which actions are configured.
\<close>

theorem unconfigured_side:
  "(rightAction st = None \<longrightarrow>
      dispatchAction RIGHT st = st
      \<and> rightPlaceholderTransform (transform p st) = rightPlaceholderTransform st
      \<and> rightPlaceholderContentTransform (transform p st) = rightPlaceholderContentTransform st)
   \<and> (leftAction st = None \<longrightarrow>
      dispatchAction LEFT st = st
      \<and> leftPlaceholderTransform (transform p st) = leftPlaceholderTransform st
      \<and> leftPlaceholderContentTransform (transform p st) = leftPlaceholderContentTransform st)
   \<and> map_sum id translateX (onTouchMove e (st\<lparr>leftAction := la, rightAction := ra\<rparr>))
       = map_sum id translateX (onTouchMove e st)"
  using transform_right_absent [of st p] transform_left_absent [of st p]
  by (simp add: dispatchAction_def onTouchMove_ignores_actions)

theorem unconfigured_side_witness:
  "rightAction (onTouchStart \<lparr>clientX = 0, clientY = 0\<rparr> 0 (mounted None None 300 50)) = None
   \<and> leftAction (onTouchStart \<lparr>clientX = 0, clientY = 0\<rparr> 0 (mounted None None 300 50)) = None
   \<and> dispatchAction RIGHT (onTouchStart \<lparr>clientX = 0, clientY = 0\<rparr> 0 (mounted None None 300 50))
       = onTouchStart \<lparr>clientX = 0, clientY = 0\<rparr> 0 (mounted None None 300 50)
   \<and> dispatchAction LEFT (onTouchStart \<lparr>clientX = 0, clientY = 0\<rparr> 0 (mounted None None 300 50))
       = onTouchStart \<lparr>clientX = 0, clientY = 0\<rparr> 0 (mounted None None 300 50)
   \<and> rightPlaceholderTransform
        (transform (Num 50) (onTouchStart \<lparr>clientX = 0, clientY = 0\<rparr> 0 (mounted None None 300 50)))
       = None
   \<and> leftPlaceholderTransform
        (transform (Num 50) (onTouchStart \<lparr>clientX = 0, clientY = 0\<rparr> 0 (mounted None None 300 50)))
       = None
   \<and> map_sum id translateX
        (onTouchMove \<lparr>clientX = 50, clientY = 0\<rparr>
          ((onTouchStart \<lparr>clientX = 0, clientY = 0\<rparr> 0 (mounted None None 300 50))
             \<lparr>leftAction := Some delete_action, rightAction := Some delete_action\<rparr>))
       = Inr (Some (Num 50))"
  using unconfigured_side [of "onTouchStart \<lparr>clientX = 0, clientY = 0\<rparr> 0 (mounted None None 300 50)"
          "Num 50" "\<lparr>clientX = 50, clientY = 0\<rparr>" "Some delete_action" "Some delete_action"]
  by (simp add: started_fields onTouchMove_idle [OF started_fields(1) started_fields(2)]
        transform_translateX)
     (simp add: onTouchStart_def mounted_def)

section \<open>The strings given to the elements\<close>

text \<open>
  C8. For the demo's widget and the offset \<open>-200\<close>, the content receives
  \<open>translateX(-200px)\<close> and the inner block of a placeholder \<open>scaleX(0.5)\<close>, both complete, but
  each placeholder receives \<open>translateX(-200px) scaleX(2\<close>: the template of the source ends
  with the substituted scale, and the parenthesis opened by \<open>scaleX(\<close> is never closed.
\<close>

theorem placeholder_transform_unclosed:
  "contentTransform (dragging (-200)) = Some [Text ''translateX('', Subst (Num (-200)), Text ''px)'']
   \<and> leftPlaceholderTransform (dragging (-200))
       = Some [Text ''translateX('', Subst (Num (-200)), Text ''px) scaleX('', Subst (Num 2)]
   \<and> rightPlaceholderTransform (dragging (-200))
       = Some [Text ''translateX('', Subst (Num (-200)), Text ''px) scaleX('', Subst (Num 2)]
   \<and> leftPlaceholderContentTransform (dragging (-200))
       = Some [Text ''scaleX('', Subst (Num (1 / 2)), Text '')'']
   \<and> render fmt [Text ''translateX('', Subst (Num (-200)), Text ''px) scaleX('', Subst (Num 2)]
       = ''translateX('' @ fmt (Num (-200)) @ ''px) scaleX('' @ fmt (Num 2)"
  by (simp add: dragging_def transform_def Let_def onTouchStart_def mounted_def width_def
        render_def delete_action_def)

section \<open>The animations\<close>

lemma transform_env [simp]:
  "leftAction (transform p st) = leftAction st"
  "rightAction (transform p st) = rightAction st"
  "offsetWidth (transform p st) = offsetWidth st"
  "dispatched (transform p st) = dispatched st"
  "frameCallbacks (transform p st) = frameCallbacks st"
  by (simp_all add: transform_def Let_def)

lemma transform_contentTransform:
  "translateX (transform p st) = Some t \<Longrightarrow>
   contentTransform (transform p st) = Some [Text ''translateX('', Subst t, Text ''px)'']"
  by (auto simp: transform_def Let_def)

lemma transform_inside:
  "\<bar>z\<bar> \<le> of_nat (offsetWidth st) \<Longrightarrow> translateX (transform (Num z) st) = Some (Num z)"
  by (simp add: transform_translateX)

lemma dispatchAction_env [simp]:
  "leftAction (dispatchAction d st) = leftAction st"
  "rightAction (dispatchAction d st) = rightAction st"
  "offsetWidth (dispatchAction d st) = offsetWidth st"
  "frameCallbacks (dispatchAction d st) = frameCallbacks st"
  "translateX (dispatchAction d st) = translateX st"
  "contentTransform (dispatchAction d st) = contentTransform st"
  by (simp_all add: dispatchAction_def Let_def split: option.splits)


lemma animationFrame_single:
  "frameCallbacks s = [cb] \<Longrightarrow> animationFrame s = run_callback cb (s\<lparr>frameCallbacks := []\<rparr>)"
  by (simp add: animationFrame_def)

lemma animationFrame_idle:
  "frameCallbacks s = [] \<Longrightarrow> animationFrame s = s"
  by (simp add: animationFrame_def)

lemma run_frames_idle:
  "frameCallbacks s = [] \<Longrightarrow> run_frames k s = Some s"
  by (cases k) simp_all









lemma enough_exists: "positive_step ppf \<Longrightarrow> \<exists>k. enough ppf gap k"
proof (cases ppf)
  case (Num p)
  assume "positive_step ppf"
  with Num have "0 < p" by simp
  from ex_less_of_nat_mult [OF this, of gap] obtain k where "gap < of_nat k * p" by blast
  with Num show ?thesis by (auto intro: exI [of _ k])
qed (auto intro: exI [of _ 1])

lemma reset_target_LEFT:
  "positive_step ppf \<Longrightarrow> js_min (js_add (Num (- u)) ppf) (Num 0) = Num (- retreat ppf u)"
  by (cases ppf) (auto simp: min_def max_def)

lemma reset_target_RIGHT:
  "positive_step ppf \<Longrightarrow> js_max (js_sub (Num u) ppf) (Num 0) = Num (retreat ppf u)"
  by (cases ppf) (auto simp: js_sub_def)

lemma retreat_bounds:
  "positive_step ppf \<Longrightarrow> 0 \<le> u \<Longrightarrow> u \<le> w \<Longrightarrow> 0 \<le> retreat ppf u \<and> retreat ppf u \<le> w"
  by (cases ppf) auto

lemma reset_frame_running:
  assumes run: "reset_running d ppf st0 s u" and lt: "0 < u" and pos: "positive_step ppf"
  shows "reset_running d ppf st0 (animationFrame s) (retreat ppf u)"
proof -
  let ?w = "rat_of_nat (offsetWidth st0)"
  let ?u' = "retreat ppf u"
  let ?s0 = "s\<lparr>frameCallbacks := []\<rparr>"
  from run have cb: "frameCallbacks s = [ResetStep d ppf]"
    and tx: "translateX s = Some (Num (toward d * u))"
    and u: "0 \<le> u" "u \<le> ?w" and disp: "dispatched s = dispatched st0"
    and env: "same_env st0 s"
    by (simp_all add: reset_running_def)
  from env have w: "offsetWidth s = offsetWidth st0" by (simp add: same_env_def)
  from retreat_bounds [OF pos u] have u': "0 \<le> ?u'" "?u' \<le> ?w" by simp_all
  have txs: "to_number (translateX ?s0) = Num (toward d * u)"
    using tx by simp
  have notdone: "\<not> ((d = LEFT \<and> js_ge (to_number (translateX ?s0)) (Num 0))
                   \<or> (d = RIGHT \<and> js_le (to_number (translateX ?s0)) (Num 0)))"
    unfolding txs using lt by (cases d) simp_all
  have target: "(if d = LEFT
          then js_min (js_add (to_number (translateX ?s0)) ppf) (Num 0)
          else js_max (js_sub (to_number (translateX ?s0)) ppf) (Num 0))
        = Num (toward d * ?u')"
    unfolding txs
    by (cases d) (simp_all add: reset_target_LEFT [OF pos] reset_target_RIGHT [OF pos])
  have "animationFrame s = reset_step d ppf ?s0"
    unfolding animationFrame_single [OF cb] by simp
  also have "\<dots> = requestAnimationFrame (ResetStep d ppf)
       (transform (if d = LEFT
          then js_min (js_add (to_number (translateX ?s0)) ppf) (Num 0)
          else js_max (js_sub (to_number (translateX ?s0)) ppf) (Num 0)) ?s0)"
    unfolding reset_step_def Let_def using notdone by (rule if_not_P)
  finally have frame: "animationFrame s
      = requestAnimationFrame (ResetStep d ppf) (transform (Num (toward d * ?u')) ?s0)"
    unfolding target .
  have inside: "\<bar>toward d * ?u'\<bar> \<le> of_nat (offsetWidth ?s0)"
    using u' w by (cases d) simp_all
  have tx': "translateX (transform (Num (toward d * ?u')) ?s0) = Some (Num (toward d * ?u'))"
    by (rule transform_inside [OF inside])
  show ?thesis
    unfolding reset_running_def frame
    using tx' transform_contentTransform [OF tx'] u' disp env
    by (simp add: requestAnimationFrame_def same_env_def)
qed

lemma reset_frame_done:
  assumes run: "reset_running d ppf st0 s u" and le: "u \<le> 0"
  shows "reset_done st0 (animationFrame s)"
proof -
  let ?s0 = "s\<lparr>frameCallbacks := []\<rparr>"
  from run have cb: "frameCallbacks s = [ResetStep d ppf]"
    and tx: "translateX s = Some (Num (toward d * u))"
    and ct: "contentTransform s = Some [Text ''translateX('', Subst (Num (toward d * u)), Text ''px)'']"
    and u: "0 \<le> u" and disp: "dispatched s = dispatched st0"
    and env: "same_env st0 s"
    by (simp_all add: reset_running_def)
  from u le have eq: "u = 0" by simp
  have txs: "to_number (translateX ?s0) = Num 0"
    using tx eq by simp
  have fin: "(d = LEFT \<and> js_ge (to_number (translateX ?s0)) (Num 0))
               \<or> (d = RIGHT \<and> js_le (to_number (translateX ?s0)) (Num 0))"
    unfolding txs by (cases d) simp_all
  have "animationFrame s = reset_step d ppf ?s0"
    unfolding animationFrame_single [OF cb] by simp
  also have "\<dots> = ?s0\<lparr>translateX := None\<rparr>"
    unfolding reset_step_def using fin by (rule if_P)
  finally have frame: "animationFrame s = ?s0\<lparr>translateX := None\<rparr>" .
  show ?thesis
    unfolding reset_done_def frame using ct eq disp env by (simp add: same_env_def)
qed

lemma enough_retreat:
  "positive_step ppf \<Longrightarrow> 0 < u \<Longrightarrow> enough ppf u k \<Longrightarrow>
     0 < k \<and> enough ppf (retreat ppf u) (k - 1)"
proof (cases ppf)
  case (Num p)
  assume a: "positive_step ppf" "0 < u" "enough ppf u k"
  with Num have p: "0 < p" and le: "u \<le> of_nat k * p" by simp_all
  from le a(2) obtain j where k: "k = Suc j" by (cases k) simp_all
  from le have "u - p \<le> of_nat j * p" unfolding k by (simp add: algebra_simps)
  then have "max (u - p) 0 \<le> of_nat j * p"
    using p by (simp add: max_def)
  with Num k show ?thesis by simp
qed auto

lemma reset_terminates_aux:
  "reset_running d ppf st0 s u \<Longrightarrow> positive_step ppf \<or> u \<le> 0 \<Longrightarrow> enough ppf u k \<Longrightarrow>
   \<exists>s'. run_frames (Suc k) s = Some s' \<and> reset_done st0 s'"
proof (induction k arbitrary: s u)
  case 0
  have cb: "frameCallbacks s \<noteq> []" using "0.prems"(1) by (simp add: reset_running_def)
  have le: "u \<le> 0"
  proof (cases "u \<le> 0")
    case False
    with "0.prems"(2) have "positive_step ppf" by simp
    with "0.prems"(3) False show ?thesis by (cases ppf) simp_all
  qed
  from reset_frame_done [OF "0.prems"(1) le] cb show ?case
    by (simp add: reset_done_def)
next
  case (Suc k)
  have cb: "frameCallbacks s \<noteq> []" using Suc.prems(1) by (simp add: reset_running_def)
  show ?case
  proof (cases "u \<le> 0")
    case True
    from reset_frame_done [OF Suc.prems(1) True] cb show ?thesis
      by (simp add: reset_done_def run_frames_idle)
  next
    case False
    then have lt: "0 < u" by simp
    with Suc.prems(2) have pos: "positive_step ppf" by simp
    from reset_frame_running [OF Suc.prems(1) lt pos]
    have run': "reset_running d ppf st0 (animationFrame s) (retreat ppf u)" .
    from enough_retreat [OF pos lt Suc.prems(3)]
    have en: "enough ppf (retreat ppf u) k" by simp
    from Suc.IH [OF run' _ en] pos
    obtain s' where "run_frames (Suc k) (animationFrame s) = Some s'" "reset_done st0 s'"
      by blast
    with cb show ?thesis by simp
  qed
qed


lemma reset_frames_inv:
  assumes "reset_running d ppf st0 s0 u0" and "positive_step ppf \<or> u0 \<le> 0"
  shows "(\<exists>u. reset_running d ppf st0 ((animationFrame ^^ n) s0) u \<and> (positive_step ppf \<or> u \<le> 0))
         \<or> reset_done st0 ((animationFrame ^^ n) s0)"
proof (induction n)
  case 0
  from assms show ?case by auto
next
  case (Suc n)
  let ?s = "(animationFrame ^^ n) s0"
  have nxt: "(animationFrame ^^ Suc n) s0 = animationFrame ?s" by simp
  from Suc.IH show ?case
  proof
    assume "\<exists>u. reset_running d ppf st0 ?s u \<and> (positive_step ppf \<or> u \<le> 0)"
    then obtain u where run: "reset_running d ppf st0 ?s u"
      and pos: "positive_step ppf \<or> u \<le> 0" by blast
    show ?thesis
    proof (cases "u \<le> 0")
      case True
      from reset_frame_done [OF run True] show ?thesis unfolding nxt by simp
    next
      case False
      with pos have p: "positive_step ppf" by simp
      from False have "0 < u" by simp
      from reset_frame_running [OF run this p] p show ?thesis unfolding nxt by blast
    qed
  next
    assume fin: "reset_done st0 ?s"
    then have "frameCallbacks ?s = []" by (simp add: reset_done_def)
    from animationFrame_idle [OF this] fin show ?thesis unfolding nxt by simp
  qed
qed


lemma reset_eq:
  assumes "translateX st = Some (Num x)"
  shows "reset st = requestAnimationFrame
           (ResetStep (if x < 0 then LEFT else RIGHT) (reset_pixelPerFrame st x)) st"
  using assms by (simp add: reset_def Let_def reset_pixelPerFrame_def)

lemma toward_abs: "toward (if x < 0 then LEFT else RIGHT) * \<bar>x\<bar> = x"
  by simp



lemma reset_initial:
  assumes "translateX st = Some (Num x)" and "\<bar>x\<bar> \<le> of_nat (offsetWidth st)"
    and "contentTransform st = Some [Text ''translateX('', Subst (Num x), Text ''px)'']"
    and "frameCallbacks st = []"
  shows "reset_running (if x < 0 then LEFT else RIGHT) (reset_pixelPerFrame st x) st (reset st) \<bar>x\<bar>"
  unfolding reset_running_def reset_eq [OF assms(1)] toward_abs
  using assms by (simp add: requestAnimationFrame_def same_env_def)

lemma reset_positive:
  "positive_step (reset_pixelPerFrame st x) \<or> \<bar>x\<bar> \<le> 0"
  by (auto simp: reset_pixelPerFrame_def)

lemma enough_exists_or: "positive_step ppf \<or> gap \<le> 0 \<Longrightarrow> \<exists>k. enough ppf gap k"
proof (cases "positive_step ppf")
  case True
  then show ?thesis by (rule enough_exists)
next
  case False
  assume "positive_step ppf \<or> gap \<le> 0"
  with False have "gap \<le> 0" by simp
  then have "enough ppf gap 0" by (cases ppf) simp_all
  then show ?thesis ..
qed

lemma reset_terminates:
  assumes "tracking st x"
  shows "\<exists>n s'. run_frames n (reset st) = Some s' \<and> reset_done st s'"
proof -
  from assms have run: "reset_running (if x < 0 then LEFT else RIGHT) (reset_pixelPerFrame st x)
                          st (reset st) \<bar>x\<bar>"
    unfolding tracking_def by (intro reset_initial) simp_all
  have pos: "positive_step (reset_pixelPerFrame st x) \<or> \<bar>x\<bar> \<le> 0"
    by (rule reset_positive)
  from enough_exists_or [OF this] obtain k
    where "enough (reset_pixelPerFrame st x) \<bar>x\<bar> k" ..
  from reset_terminates_aux [OF run pos this] show ?thesis by blast
qed


lemma reset_frames:
  assumes "tracking st x"
  shows "(\<exists>u. reset_running (if x < 0 then LEFT else RIGHT) (reset_pixelPerFrame st x) st
                 ((animationFrame ^^ n) (reset st)) u
              \<and> (positive_step (reset_pixelPerFrame st x) \<or> u \<le> 0))
         \<or> reset_done st ((animationFrame ^^ n) (reset st))"
proof -
  from assms have run: "reset_running (if x < 0 then LEFT else RIGHT) (reset_pixelPerFrame st x)
                          st (reset st) \<bar>x\<bar>"
    unfolding tracking_def by (intro reset_initial) simp_all
  have pos: "positive_step (reset_pixelPerFrame st x) \<or> \<bar>x\<bar> \<le> 0"
    by (rule reset_positive)
  from reset_frames_inv [OF run pos] show ?thesis .
qed

lemma running_offset:
  "Num (toward d * u) = Num y \<Longrightarrow> 0 \<le> u \<Longrightarrow> u = \<bar>y\<bar> \<and> y = toward d * u"
  by (cases d) auto


lemma reset_pixelPerFrame_cases:
  "animationTime st = 0 \<Longrightarrow> positive_step (reset_pixelPerFrame st x) \<Longrightarrow>
     reset_pixelPerFrame st x = PInf"
  "animationTime st \<noteq> 0 \<Longrightarrow>
     reset_pixelPerFrame st x = Num \<bar>x / (animationTime st * (3 / 50))\<bar>"
  by (simp_all add: reset_pixelPerFrame_def split: if_splits)

lemma toward_retreat:
  "toward LEFT * max (u - p) 0 = min (toward LEFT * u + p) 0"
  "toward RIGHT * max (u - p) 0 = max (toward RIGHT * u - p) 0"
  by (simp_all add: min_def max_def)

lemma reset_retreat_value:
  assumes "positive_step (reset_pixelPerFrame st x)" and "y = toward (if x < 0 then LEFT else RIGHT) * u"
  shows "toward (if x < 0 then LEFT else RIGHT) * retreat (reset_pixelPerFrame st x) u
         = (if animationTime st = 0 then 0
            else if x < 0 then min (y + \<bar>x / (animationTime st * (3 / 50))\<bar>) 0
            else max (y - \<bar>x / (animationTime st * (3 / 50))\<bar>) 0)"
proof (cases "animationTime st = 0")
  case True
  from reset_pixelPerFrame_cases(1) [OF True assms(1)] True show ?thesis by simp
next
  case False
  show ?thesis
    unfolding reset_pixelPerFrame_cases(2) [OF False] retreat.simps assms(2)
    using False by (cases "x < 0") (simp_all only: if_True if_False toward_retreat)
qed









lemma reset_frame_dispatched:
  assumes trk: "tracking st x"
  shows "dispatched ((animationFrame ^^ n) (reset st)) = dispatched st"
  using reset_frames [OF trk, of n]
  by (auto simp: reset_done_def reset_running_def)

lemma reset_frame_next:
  assumes trk: "tracking st x"
    and tx: "translateX ((animationFrame ^^ n) (reset st)) = Some (Num y)"
    and ne: "y \<noteq> 0"
  shows "translateX ((animationFrame ^^ Suc n) (reset st))
     = Some (Num (if animationTime st = 0 then 0
            else if x < 0 then min (y + \<bar>x / (animationTime st * (3 / 50))\<bar>) 0
            else max (y - \<bar>x / (animationTime st * (3 / 50))\<bar>) 0))"
proof -
  let ?d = "if x < 0 then LEFT else RIGHT" and ?ppf = "reset_pixelPerFrame st x"
  let ?s = "(animationFrame ^^ n) (reset st)"
  have nxt: "(animationFrame ^^ Suc n) (reset st) = animationFrame ?s" by simp
  from reset_frames [OF trk, of n] tx
  obtain u where run: "reset_running ?d ?ppf st ?s u"
    and pos: "positive_step ?ppf \<or> u \<le> 0"
    by (auto simp: reset_done_def)
  from run tx have "Num (toward ?d * u) = Num y" and "0 \<le> u"
    by (simp_all add: reset_running_def)
  from running_offset [OF this] have u: "u = \<bar>y\<bar>" and y: "y = toward ?d * u" by blast+
  from u ne have ult: "0 < u" by simp
  with pos have p: "positive_step ?ppf" by simp
  from reset_frame_running [OF run ult p]
  have "translateX (animationFrame ?s) = Some (Num (toward ?d * retreat ?ppf u))"
    by (simp add: reset_running_def)
  then show ?thesis
    unfolding nxt reset_retreat_value [OF p y] .
qed

lemma reset_frame_last:
  assumes trk: "tracking st x"
    and tx: "translateX ((animationFrame ^^ n) (reset st)) = Some (Num 0)"
  shows "translateX ((animationFrame ^^ Suc n) (reset st)) = None
     \<and> frameCallbacks ((animationFrame ^^ Suc n) (reset st)) = []"
proof -
  let ?d = "if x < 0 then LEFT else RIGHT" and ?ppf = "reset_pixelPerFrame st x"
  let ?s = "(animationFrame ^^ n) (reset st)"
  have nxt: "(animationFrame ^^ Suc n) (reset st) = animationFrame ?s" by simp
  from reset_frames [OF trk, of n] tx
  obtain u where run: "reset_running ?d ?ppf st ?s u"
    by (auto simp: reset_done_def)
  from run tx have "Num (toward ?d * u) = Num 0" and "0 \<le> u"
    by (simp_all add: reset_running_def)
  from running_offset [OF this] have "u = \<bar>0::rat\<bar>" by blast
  then have "u \<le> 0" by simp
  from reset_frame_done [OF run this] show ?thesis
    unfolding nxt by (simp add: reset_done_def)
qed

lemma reset_frame_sign:
  assumes trk: "tracking st x"
    and tx: "translateX ((animationFrame ^^ n) (reset st)) = Some (Num y)"
  shows "if x < 0 then y \<le> 0 else 0 \<le> y"
proof -
  let ?d = "if x < 0 then LEFT else RIGHT" and ?ppf = "reset_pixelPerFrame st x"
  let ?s = "(animationFrame ^^ n) (reset st)"
  from reset_frames [OF trk, of n] tx
  obtain u where run: "reset_running ?d ?ppf st ?s u"
    by (auto simp: reset_done_def)
  from run tx have "Num (toward ?d * u) = Num y" and "0 \<le> u"
    by (simp_all add: reset_running_def)
  from running_offset [OF this] have "y = toward ?d * u" by blast
  with \<open>0 \<le> u\<close> show ?thesis by (cases "x < 0") simp_all
qed

lemma dragging_tracking:
  "\<bar>- 200\<bar> \<le> rat_of_nat (offsetWidth (dragging (- 200)))"
  "\<bar>- 20\<bar> \<le> rat_of_nat (offsetWidth (dragging (- 20)))"
  "contentTransform (dragging (- 200)) = Some [Text ''translateX('', Subst (Num (- 200)), Text ''px)'']"
  "contentTransform (dragging (- 20)) = Some [Text ''translateX('', Subst (Num (- 20)), Text ''px)'']"
  "animationTime (dragging x) = 200"
  "dispatched (dragging x) = []"
  "dispatched (dispatchAction LEFT (dragging x))
     = [\<lparr>event_type = ''action'', detail_name = ''DELETE''\<rparr>]"
  by (simp_all add: dragging_def transform_def Let_def onTouchStart_def mounted_def width_def
        dispatchAction_def delete_action_def)

lemma swipe_reset_translateX [simp]:
  "translateX (swipe st) = translateX st"
  "translateX (reset st) = translateX st"
  by (simp_all add: swipe_def reset_def Let_def requestAnimationFrame_def)






text \<open>
  Whether a commit animation ends depends on the rounding. On the demo's widget, let the
  stored offset be \<open>300 - 2 powi (- 44)\<close>, the double next below 300 (a touch from 212.3 to
  512.3 stores it). The step is \<open>2 powi (- 44) / 12\<close>, less than half the distance to the
  next double, so that the sum rounds back to the offset: the frame leaves the instance as
  it was, the \<open>step\<close> stays registered, and no number of frames ends the animation or
  dispatches the event.
\<close>

lemma commit_frame_absorbed:
  "animationFrame (swipe (dragging (300 - 1 / 2 ^ 44))) = swipe (dragging (300 - 1 / 2 ^ 44))
   \<and> translateX (swipe (dragging (300 - 1 / 2 ^ 44))) = Some (Num (300 - 1 / 2 ^ 44))
   \<and> frameCallbacks (swipe (dragging (300 - 1 / 2 ^ 44))) \<noteq> []
   \<and> dispatched (swipe (dragging (300 - 1 / 2 ^ 44))) = []"
  by code_simp

lemma commit_never_ends:
  "run_frames n (swipe (dragging (300 - 1 / 2 ^ 44))) = None"
proof (induction n)
  case 0
  from commit_frame_absorbed show ?case by simp
next
  case (Suc n)
  from commit_frame_absorbed Suc.IH show ?case by simp
qed

text \<open>
  C5. Let a touch-move have applied the finite offset \<open>x\<close>, and let no animation be running.
  The reset animation started by \<open>_reset\<close> ends after finitely many frames: then the offset
  is cleared, no callback is registered, the content stands at exactly 0 and no event has
  been dispatched. At every frame that finds an offset \<open>y\<close> other than 0, the next offset is
  \<open>y\<close> moved toward 0 by \<open>|x / (animationTime * 0.06)|\<close> and clamped at 0 (for
  \<open>animationTime = 0\<close> it is 0 at once). The offsets of a reset that began on the left are
  never positive and those of one that began on the right never negative, so that the
  direction-aware test stops the animation exactly at the frame that finds the offset 0.
\<close>

theorem reset_animation:
  fixes st :: swipeable and x :: rat
  defines "frame \<equiv> \<lambda>n. (animationFrame ^^ n) (reset st)"
  assumes "translateX st = Some (Num x)" and "\<bar>x\<bar> \<le> of_nat (offsetWidth st)"
    and "contentTransform st = Some [Text ''translateX('', Subst (Num x), Text ''px)'']"
    and "frameCallbacks st = []"
  shows "(\<exists>n st'. run_frames n (reset st) = Some st'
            \<and> translateX st' = None \<and> frameCallbacks st' = []
            \<and> contentTransform st' = Some [Text ''translateX('', Subst (Num 0), Text ''px)'']
            \<and> dispatched st' = dispatched st)
     \<and> (\<forall>n y. translateX (frame n) = Some (Num y) \<and> y \<noteq> 0 \<longrightarrow>
            translateX (frame (Suc n))
              = Some (Num (if animationTime st = 0 then 0
                           else if x < 0 then min (y + \<bar>x / (animationTime st * (3 / 50))\<bar>) 0
                           else max (y - \<bar>x / (animationTime st * (3 / 50))\<bar>) 0)))
     \<and> (\<forall>n y. translateX (frame n) = Some (Num y) \<longrightarrow> (if x < 0 then y \<le> 0 else 0 \<le> y))
     \<and> (\<forall>n. translateX (frame n) = Some (Num 0) \<longrightarrow>
            translateX (frame (Suc n)) = None \<and> frameCallbacks (frame (Suc n)) = [])
     \<and> (\<forall>n. dispatched (frame n) = dispatched st)"
proof -
  have trk: "tracking st x"
    using assms by (simp add: tracking_def)
  from reset_terminates [OF trk] obtain n s'
    where "run_frames n (reset st) = Some s'" and "reset_done st s'"
    by blast
  then have fin: "\<exists>n st'. run_frames n (reset st) = Some st'
            \<and> translateX st' = None \<and> frameCallbacks st' = []
            \<and> contentTransform st' = Some [Text ''translateX('', Subst (Num 0), Text ''px)'']
            \<and> dispatched st' = dispatched st"
    unfolding reset_done_def by (intro exI [of _ n] exI [of _ s']) simp
  show ?thesis
    unfolding frame_def
    using fin reset_frame_next [OF trk] reset_frame_last [OF trk] reset_frame_sign [OF trk]
      reset_frame_dispatched [OF trk]
    by blast
qed

theorem reset_animation_witness:
  "translateX (dragging (- 20)) = Some (Num (- 20))
   \<and> \<bar>- 20\<bar> \<le> rat_of_nat (offsetWidth (dragging (- 20)))
   \<and> contentTransform (dragging (- 20))
       = Some [Text ''translateX('', Subst (Num (- 20)), Text ''px)'']
   \<and> frameCallbacks (dragging (- 20)) = []
   \<and> (\<exists>n st'. run_frames n (reset (dragging (- 20))) = Some st'
          \<and> translateX st' = None \<and> frameCallbacks st' = []
          \<and> contentTransform st' = Some [Text ''translateX('', Subst (Num 0), Text ''px)'']
          \<and> dispatched st' = [])
   \<and> translateX (animationFrame (reset (dragging (- 20)))) = Some (Num (- 55 / 3))"
proof -
  note inst = reset_animation [OF dragging_fields(2) dragging_tracking(2) dragging_tracking(4)
      dragging_fields(6)]
  from inst have fin: "\<exists>n st'. run_frames n (reset (dragging (- 20))) = Some st'
          \<and> translateX st' = None \<and> frameCallbacks st' = []
          \<and> contentTransform st' = Some [Text ''translateX('', Subst (Num 0), Text ''px)'']
          \<and> dispatched st' = []"
    by (simp add: dragging_fields dragging_tracking)
  from inst have "\<forall>n y. translateX ((animationFrame ^^ n) (reset (dragging (- 20)))) = Some (Num y)
         \<and> y \<noteq> 0 \<longrightarrow>
       translateX ((animationFrame ^^ Suc n) (reset (dragging (- 20))))
         = Some (Num (min (y + 5 / 3) 0))"
    by (simp add: dragging_fields dragging_tracking)
  from this [rule_format, of 0 "- 20"]
  have first: "translateX (animationFrame (reset (dragging (- 20)))) = Some (Num (- 55 / 3))"
    by (simp add: dragging_fields)
  with fin show ?thesis
    by (simp add: dragging_fields dragging_tracking)
qed

end
